theory Spec2Isabelle
  imports Complex_Main
begin

section \<open>Errors raised by the scripts\<close>

text \<open>
  The Python scripts signal failure by raising exceptions. Each exception class that the
  modelled code raises is a constructor carrying the message; an operation that may raise
  returns \<open>py_error + 'a\<close> with \<open>Inl\<close> for the raised exception.
\<close>

datatype py_error =
    ValueError string
  | RuntimeError string
  | FileNotFoundError string
  | JSONDecodeError string

text \<open>\<open>str(e)\<close> of an exception.\<close>

fun error_message :: "py_error \<Rightarrow> string" where
  "error_message (ValueError m) = m"
| "error_message (RuntimeError m) = m"
| "error_message (FileNotFoundError m) = m"
| "error_message (JSONDecodeError m) = m"

section \<open>mlx_analyze.py: extraction of the first JSON block\<close>

text \<open>
  \<open>analyze_emotion\<close> and \<open>analyze_fallacy\<close> contain the same block (lines 147-167 and
  210-230). A Python string is modelled as a \<open>char list\<close>; the scan only compares against
  the two ASCII brace characters.

  \<open>str_index\<close> is \<open>str.index\<close> for a one-character needle: the index of the first
  occurrence, \<open>None\<close> where Python raises.
\<close>

fun str_index :: "string \<Rightarrow> char \<Rightarrow> nat option" where
  "str_index [] c = None"
| "str_index (x # xs) c = (if x = c then Some 0 else map_option Suc (str_index xs c))"

text \<open>
  The loop \<open>for i in range(json_start, len(response_text))\<close>. The first argument is the
  part of the text not yet visited, \<open>i\<close> the index of its first character. The loop
  leaves by \<open>break\<close> with \<open>json_end = i + 1\<close>, or runs to the end of the text and leaves
  \<open>json_end\<close> as it was.
\<close>

fun scan_braces :: "string \<Rightarrow> nat \<Rightarrow> int \<Rightarrow> nat \<Rightarrow> nat" where
  "scan_braces [] i brace_count json_end = json_end"
| "scan_braces (c # rest) i brace_count json_end =
    (if c = CHR ''{'' then scan_braces rest (i + 1) (brace_count + 1) json_end
     else if c = CHR ''}'' then
       (if brace_count - 1 = 0 then i + 1
        else scan_braces rest (i + 1) (brace_count - 1) json_end)
     else scan_braces rest (i + 1) brace_count json_end)"

text \<open>Python's \<open>s[a:b]\<close> for indices \<open>0 \<le> a\<close>, \<open>0 \<le> b\<close>.\<close>

definition slice :: "string \<Rightarrow> nat \<Rightarrow> nat \<Rightarrow> string" where
  "slice s a b = take (b - a) (drop a s)"

text \<open>
  The two \<open>ValueError\<close>s of the block. The specification calls them \<open>NoOpeningBrace\<close>
  and \<open>UnbalancedBraces\<close>.
\<close>

definition NoOpeningBrace :: py_error where
  "NoOpeningBrace = ValueError ''No JSON found in model response''"

definition UnbalancedBraces :: py_error where
  "UnbalancedBraces = ValueError ''No complete JSON found in model response''"

text \<open>
  The block up to the computation of the two indices: the span \<open>[json_start, json_end)\<close>.
  The \<open>None\<close> branch of \<open>str_index\<close> is the \<open>ValueError\<close> of \<open>str.index\<close>; the
  membership test before it makes the branch unreachable.
\<close>

definition find_json_span :: "string \<Rightarrow> py_error + (nat \<times> nat)" where
  "find_json_span response_text =
    (if CHR ''{'' \<in> set response_text then
       (case str_index response_text (CHR ''{'') of
          None \<Rightarrow> Inl (ValueError ''substring not found'')
        | Some json_start \<Rightarrow>
            (let json_end = scan_braces (drop json_start response_text) json_start 0 json_start
             in if json_end \<le> json_start then Inl UnbalancedBraces
                else Inr (json_start, json_end)))
     else Inl NoOpeningBrace)"

text \<open>\<open>json_str = response_text[json_start:json_end]\<close>, the text handed to \<open>json.loads\<close>.\<close>

definition extract_first_json_object :: "string \<Rightarrow> py_error + string" where
  "extract_first_json_object response_text =
    (case find_json_span response_text of
       Inl e \<Rightarrow> Inl e
     | Inr (json_start, json_end) \<Rightarrow> Inr (slice response_text json_start json_end))"

subsection \<open>Vocabulary for stating the extraction properties\<close>

text \<open>
  The nesting depth of a text: opening braces minus closing braces, every brace counted,
  whether or not it stands inside a quoted string.
\<close>

fun brace_depth :: "string \<Rightarrow> int" where
  "brace_depth [] = 0"
| "brace_depth (c # cs) =
    (if c = CHR ''{'' then 1 else if c = CHR ''}'' then - 1 else 0) + brace_depth cs"

text \<open>
  A matched span starts with an opening brace, has depth zero as a whole, and no
  non-empty proper prefix of it has depth zero: its last character is the brace that
  matches its first.
\<close>

definition matched_span :: "string \<Rightarrow> bool" where
  "matched_span s \<longleftrightarrow>
     (case s of [] \<Rightarrow> False | c # _ \<Rightarrow> c = CHR ''{'') \<and> brace_depth s = 0 \<and>
     list_all (\<lambda>n. brace_depth (take n s) \<noteq> 0) [1..<length s]"

text \<open>
  The scan from the first opening brace never returns to depth zero: no non-empty prefix
  of the text from that brace on has depth zero.
\<close>

definition never_closes :: "string \<Rightarrow> bool" where
  "never_closes response_text \<longleftrightarrow>
     (let rest = dropWhile (\<lambda>c. c \<noteq> CHR ''{'') response_text
      in list_all (\<lambda>n. brace_depth (take n rest) \<noteq> 0) [1..<Suc (length rest)])"

subsection \<open>Well-formed JSON texts\<close>

text \<open>
  The properties of the extraction speak of well-formed JSON object literals. This is the
  grammar of RFC 8259 on character lists: whitespace, numbers and strings are recognised
  by functions, the nested structure is an inductive definition.
\<close>

definition is_ws :: "char \<Rightarrow> bool" where
  "is_ws c \<longleftrightarrow> c = CHR '' '' \<or> c = CHR 0x09 \<or> c = CHR 0x0A \<or> c = CHR 0x0D"

definition json_ws :: "string \<Rightarrow> bool" where
  "json_ws w = list_all is_ws w"

definition is_digit :: "char \<Rightarrow> bool" where
  "is_digit c \<longleftrightarrow> c \<in> set ''0123456789''"

definition is_hex :: "char \<Rightarrow> bool" where
  "is_hex c \<longleftrightarrow> c \<in> set ''0123456789abcdefABCDEF''"

text \<open>
  A number is an optional minus sign, an integer part without leading zeros, an optional
  fraction and an optional exponent: the automaton below, started in \<open>NStart\<close>, ends in
  one of the states \<open>NZero\<close>, \<open>NInt\<close>, \<open>NFrac\<close>, \<open>NExp\<close>.
\<close>

datatype num_state = NStart | NMinus | NZero | NInt | NDot | NFrac | NE | NESign | NExp

fun num_step :: "num_state \<Rightarrow> char \<Rightarrow> num_state option" where
  "num_step NStart c =
     (if c = CHR ''-'' then Some NMinus else if c = CHR ''0'' then Some NZero
      else if is_digit c then Some NInt else None)"
| "num_step NMinus c =
     (if c = CHR ''0'' then Some NZero else if is_digit c then Some NInt else None)"
| "num_step NZero c =
     (if c = CHR ''.'' then Some NDot else if c = CHR ''e'' \<or> c = CHR ''E'' then Some NE else None)"
| "num_step NInt c =
     (if is_digit c then Some NInt else if c = CHR ''.'' then Some NDot
      else if c = CHR ''e'' \<or> c = CHR ''E'' then Some NE else None)"
| "num_step NDot c = (if is_digit c then Some NFrac else None)"
| "num_step NFrac c =
     (if is_digit c then Some NFrac else if c = CHR ''e'' \<or> c = CHR ''E'' then Some NE else None)"
| "num_step NE c =
     (if c = CHR ''+'' \<or> c = CHR ''-'' then Some NESign else if is_digit c then Some NExp else None)"
| "num_step NESign c = (if is_digit c then Some NExp else None)"
| "num_step NExp c = (if is_digit c then Some NExp else None)"

fun num_run :: "num_state \<Rightarrow> string \<Rightarrow> num_state option" where
  "num_run st [] = Some st"
| "num_run st (c # cs) = (case num_step st c of None \<Rightarrow> None | Some st' \<Rightarrow> num_run st' cs)"

definition json_number :: "string \<Rightarrow> bool" where
  "json_number s \<longleftrightarrow>
     (case num_run NStart s of
        Some st \<Rightarrow> st = NZero \<or> st = NInt \<or> st = NFrac \<or> st = NExp
      | None \<Rightarrow> False)"

text \<open>
  The characters between the quotes of a string: no bare quote (\<open>CHR 0x22\<close>), no control
  character, and a backslash (\<open>CHR 0x5C\<close>) only as the start of an escape sequence.
\<close>

fun string_chars :: "string \<Rightarrow> bool" where
  "string_chars [] = True"
| "string_chars (c # cs) =
     (if c = CHR 0x5C then
        (case cs of
           [] \<Rightarrow> False
         | e # cs' \<Rightarrow>
             if e = CHR 0x22 \<or> e = CHR 0x5C \<or> e \<in> set ''/bfnrt'' then string_chars cs'
             else if e = CHR ''u'' then
               (case cs' of
                  h1 # h2 # h3 # h4 # cs'' \<Rightarrow>
                    is_hex h1 \<and> is_hex h2 \<and> is_hex h3 \<and> is_hex h4 \<and> string_chars cs''
                | _ \<Rightarrow> False)
             else False)
      else c \<noteq> CHR 0x22 \<and> (32::nat) \<le> of_char c \<and> string_chars cs)"

definition json_string :: "string \<Rightarrow> bool" where
  "json_string s \<longleftrightarrow>
     (case s of
        [] \<Rightarrow> False
      | q # r \<Rightarrow> q = CHR 0x22 \<and> r \<noteq> [] \<and> last r = CHR 0x22 \<and> string_chars (butlast r))"

text \<open>
  Values, objects, the members of an object and the elements of an array. The parameter
  \<open>str_ok\<close> is a further condition on every string of the text, keys included; with
  \<open>any_string\<close> the grammar is that of all JSON texts.
\<close>

inductive json_value :: "(string \<Rightarrow> bool) \<Rightarrow> string \<Rightarrow> bool"
  and json_object :: "(string \<Rightarrow> bool) \<Rightarrow> string \<Rightarrow> bool"
  and json_members :: "(string \<Rightarrow> bool) \<Rightarrow> string \<Rightarrow> bool"
  and json_elements :: "(string \<Rightarrow> bool) \<Rightarrow> string \<Rightarrow> bool"
  for str_ok :: "string \<Rightarrow> bool"
where
  value_true: "json_value str_ok ''true''"
| value_false: "json_value str_ok ''false''"
| value_null: "json_value str_ok ''null''"
| value_number: "json_number s \<Longrightarrow> json_value str_ok s"
| value_string: "json_string s \<Longrightarrow> str_ok s \<Longrightarrow> json_value str_ok s"
| value_object: "json_object str_ok s \<Longrightarrow> json_value str_ok s"
| value_empty_array: "json_ws w \<Longrightarrow> json_value str_ok (''['' @ w @ '']'')"
| value_array: "json_elements str_ok es \<Longrightarrow> json_value str_ok (''['' @ es @ '']'')"
| empty_object: "json_ws w \<Longrightarrow> json_object str_ok (''{'' @ w @ ''}'')"
| object: "json_members str_ok ms \<Longrightarrow> json_object str_ok (''{'' @ ms @ ''}'')"
| member:
    "json_ws w1 \<Longrightarrow> json_string k \<Longrightarrow> str_ok k \<Longrightarrow> json_ws w2 \<Longrightarrow> json_ws w3 \<Longrightarrow>
     json_value str_ok v \<Longrightarrow> json_ws w4 \<Longrightarrow>
     json_members str_ok (w1 @ k @ w2 @ '':'' @ w3 @ v @ w4)"
| members:
    "json_members str_ok m \<Longrightarrow> json_members str_ok ms \<Longrightarrow>
     json_members str_ok (m @ '','' @ ms)"
| element:
    "json_ws w1 \<Longrightarrow> json_value str_ok v \<Longrightarrow> json_ws w2 \<Longrightarrow> json_elements str_ok (w1 @ v @ w2)"
| elements:
    "json_elements str_ok e \<Longrightarrow> json_elements str_ok es \<Longrightarrow>
     json_elements str_ok (e @ '','' @ es)"

definition any_string :: "string \<Rightarrow> bool" where
  "any_string s = True"

text \<open>A text without brace characters.\<close>

definition brace_free :: "string \<Rightarrow> bool" where
  "brace_free s \<longleftrightarrow> CHR ''{'' \<notin> set s \<and> CHR ''}'' \<notin> set s"

text \<open>A text of depth zero none of whose prefixes has negative depth.\<close>

definition balanced :: "string \<Rightarrow> bool" where
  "balanced s \<longleftrightarrow> brace_depth s = 0 \<and> (\<forall>n. 0 \<le> brace_depth (take n s))"

text \<open>The first character after leading whitespace is a quote.\<close>

definition starts_with_quote :: "string \<Rightarrow> bool" where
  "starts_with_quote s \<longleftrightarrow>
     (case dropWhile is_ws s of [] \<Rightarrow> False | c # _ \<Rightarrow> c = CHR 0x22)"

text \<open>
  Two responses of a model. In the first the value of the object is a string that holds a
  closing brace; in the second the prose before the object has braces of its own.
\<close>

definition brace_in_string_text :: string where
  \<open>brace_in_string_text = ''x {"a": "}"} y''\<close>

definition brace_in_prose_text :: string where
  \<open>brace_in_prose_text = ''Format {k: v}, result: {"a": 1}''\<close>

section \<open>mlx_analyze.py: required fields\<close>

text \<open>
  What \<open>json.loads\<close> returns. The text handed to it starts with an opening brace, so a
  successful parse is a dictionary: a list of key-value pairs in insertion order.
\<close>

datatype json =
    JNull
  | JBool bool
  | JInt int
  | JFloat real
  | JString string
  | JArray "json list"
  | JObject "(string \<times> json) list"

type_synonym parsed_record = "(string \<times> json) list"

text \<open>\<open>key in result\<close> for a dictionary.\<close>

definition has_key :: "string \<Rightarrow> parsed_record \<Rightarrow> bool" where
  "has_key k result \<longleftrightarrow> k \<in> set (map fst result)"

datatype record_kind = Emotion | Fallacy

fun required_keys :: "record_kind \<Rightarrow> string list" where
  "required_keys Emotion = [''primary'', ''confidence'']"
| "required_keys Fallacy = [''fallacies'', ''enrichment'']"

text \<open>Lines 170-173 of \<open>analyze_emotion\<close> and 233-236 of \<open>analyze_fallacy\<close>.\<close>

fun validate :: "record_kind \<Rightarrow> parsed_record \<Rightarrow> py_error + parsed_record" where
  "validate Emotion result =
     (if \<not> has_key ''primary'' result \<or> \<not> has_key ''confidence'' result
      then Inl (ValueError ''Invalid emotion JSON: missing required fields'')
      else Inr result)"
| "validate Fallacy result =
     (if \<not> has_key ''fallacies'' result \<or> \<not> has_key ''enrichment'' result
      then Inl (ValueError ''Invalid fallacy JSON: missing required fields'')
      else Inr result)"

text \<open>
  The two functions from the stripped response on (lines 147-181 and 210-239), with
  \<open>json.loads\<close> as an argument. Every exception raised on the way is caught by the
  enclosing \<open>try\<close> and raised again as a \<open>RuntimeError\<close> that carries its message;
  \<open>analyze_emotion\<close> has a message of its own for a \<open>JSONDecodeError\<close>.
\<close>

definition analyze_emotion ::
  "(string \<Rightarrow> py_error + parsed_record) \<Rightarrow> string \<Rightarrow> py_error + parsed_record" where
  "analyze_emotion json_loads response_text =
     (case extract_first_json_object response_text of
        Inl e \<Rightarrow> Inl (RuntimeError (''Emotion analysis failed: '' @ error_message e))
      | Inr json_str \<Rightarrow>
          (case json_loads json_str of
             Inl (JSONDecodeError m) \<Rightarrow>
               Inl (RuntimeError (''Emotion analysis failed: Invalid JSON - '' @ m))
           | Inl e \<Rightarrow> Inl (RuntimeError (''Emotion analysis failed: '' @ error_message e))
           | Inr result \<Rightarrow>
               (case validate Emotion result of
                  Inl e \<Rightarrow> Inl (RuntimeError (''Emotion analysis failed: '' @ error_message e))
                | Inr checked \<Rightarrow> Inr checked)))"

definition analyze_fallacy ::
  "(string \<Rightarrow> py_error + parsed_record) \<Rightarrow> string \<Rightarrow> py_error + parsed_record" where
  "analyze_fallacy json_loads response_text =
     (case extract_first_json_object response_text of
        Inl e \<Rightarrow> Inl (RuntimeError (''Fallacy analysis failed: '' @ error_message e))
      | Inr json_str \<Rightarrow>
          (case json_loads json_str of
             Inl e \<Rightarrow> Inl (RuntimeError (''Fallacy analysis failed: '' @ error_message e))
           | Inr result \<Rightarrow>
               (case validate Fallacy result of
                  Inl e \<Rightarrow> Inl (RuntimeError (''Fallacy analysis failed: '' @ error_message e))
                | Inr checked \<Rightarrow> Inr checked)))"

text \<open>
  Vocabulary for stating the properties: the first required key, in the order of
  \<open>required_keys\<close>, that a record lacks, and the error the code raises for a kind.
\<close>

definition first_missing :: "record_kind \<Rightarrow> parsed_record \<Rightarrow> string option" where
  "first_missing kind result = find (\<lambda>k. \<not> has_key k result) (required_keys kind)"

fun missing_fields_error :: "record_kind \<Rightarrow> py_error" where
  "missing_fields_error Emotion = ValueError ''Invalid emotion JSON: missing required fields''"
| "missing_fields_error Fallacy = ValueError ''Invalid fallacy JSON: missing required fields''"

section \<open>mlx_transcribe.py: the hallucination check\<close>

text \<open>
  Python floats are modelled as real numbers. The check only compares the two signals
  with the literals 0.5, 0.8 and -0.8.
\<close>

definition should_suppress :: "real \<Rightarrow> real \<Rightarrow> bool" where
  "should_suppress no_speech_prob avg_logprob =
     (if (no_speech_prob > 0.5 \<and> avg_logprob < - 0.8) \<or> no_speech_prob > 0.8
      then True else False)"

text \<open>
  A segment of the engine's result is a dictionary or an object; each of \<open>start\<close>,
  \<open>end\<close> and \<open>text\<close> may be absent.
\<close>

datatype raw_segment =
    SegDict "real option" "real option" "string option"
  | SegObject "real option" "real option" "string option"

record segment =
  seg_start :: real
  seg_end :: real
  seg_text :: string

text \<open>
  The engine's result. \<open>getattr\<close> with a default reads an attribute that may be absent:
  such attributes are options (for \<open>language\<close>, \<open>None\<close> is also the attribute being
  present and \<open>None\<close>, which the code treats alike).
\<close>

record stt_result =
  result_text :: string
  result_language :: "string option"
  result_segments :: "raw_segment list option"
  result_no_speech_prob :: "real option"
  result_avg_logprob :: "real option"

record transcription_output =
  out_text :: string
  out_language :: string
  out_segments :: "segment list"
  speech_duration_sec :: real
  total_duration_sec :: real

text \<open>What the run writes to standard error besides the output.\<close>

datatype diagnostic = HallucinationWarning real real

record run_outcome =
  stdout_json :: transcription_output
  stderr_log :: "diagnostic list"
  exit_code :: nat

definition getattr :: "'a option \<Rightarrow> 'a \<Rightarrow> 'a" where
  "getattr attr dflt = (case attr of None \<Rightarrow> dflt | Some v \<Rightarrow> v)"

text \<open>\<open>a or b\<close> on optional strings: \<open>None\<close> and the empty string are falsy.\<close>

definition py_or :: "string option \<Rightarrow> string option \<Rightarrow> string option" where
  "py_or a b = (case a of None \<Rightarrow> b | Some s \<Rightarrow> if s = [] then b else a)"

fun convert_segment :: "raw_segment \<Rightarrow> segment" where
  "convert_segment (SegDict s e t) =
     \<lparr>seg_start = getattr s 0, seg_end = getattr e 0, seg_text = getattr t ''''\<rparr>"
| "convert_segment (SegObject s e t) =
     \<lparr>seg_start = getattr s 0, seg_end = getattr e 0, seg_text = getattr t ''''\<rparr>"

text \<open>Lines 158-184: the output dictionary, given the decision of the check.\<close>

definition build_output ::
  "bool \<Rightarrow> stt_result \<Rightarrow> string option \<Rightarrow> real \<Rightarrow> transcription_output" where
  "build_output is_hallucination result args_language audio_duration =
     (let text = (if is_hallucination then '''' else result_text result);
          output = \<lparr>out_text = text,
                    out_language =
                      getattr (py_or (py_or (result_language result) args_language) (Some ''de'')) ''de'',
                    out_segments = [],
                    speech_duration_sec = audio_duration,
                    total_duration_sec = audio_duration\<rparr>
      in if \<not> is_hallucination \<and> result_segments result \<noteq> None \<and> result_segments result \<noteq> Some []
         then output\<lparr>out_segments := map convert_segment (the (result_segments result))\<rparr>
         else output)"

text \<open>
  Lines 135-188 of \<open>main\<close>, from the engine's result to the exit: the check, its warning
  on standard error, the output on standard output, exit code 0.
\<close>

definition transcribe_main :: "stt_result \<Rightarrow> string option \<Rightarrow> real \<Rightarrow> run_outcome" where
  "transcribe_main result args_language audio_duration =
     (let no_speech_prob = getattr (result_no_speech_prob result) 0;
          avg_logprob = getattr (result_avg_logprob result) 0;
          is_hallucination = should_suppress no_speech_prob avg_logprob
      in \<lparr>stdout_json = build_output is_hallucination result args_language audio_duration,
          stderr_log = (if is_hallucination then [HallucinationWarning no_speech_prob avg_logprob] else []),
          exit_code = 0\<rparr>)"

text \<open>A result of the engine used in the examples below.\<close>

definition sample_result :: stt_result where
  "sample_result =
     \<lparr>result_text = ''Vielen Dank.'', result_language = Some ''en'',
      result_segments = Some [SegDict (Some 0) (Some 1.5) (Some ''Vielen Dank.'')],
      result_no_speech_prob = Some 0.9, result_avg_logprob = Some (- 0.1)\<rparr>"

section \<open>validate-quantized-model.py: the accuracy gate\<close>

text \<open>
  A float is the real number it stands for and an embedding is a list of floats. The
  tokenizer and the two ONNX sessions are outside the repository: what they do is an
  argument of the model. So is the arithmetic on floats: \<open>np.dot\<close>, \<open>np.linalg.norm\<close>,
  \<open>np.mean\<close> and the float product and quotient round their results, and the model takes
  them as they are, whatever finite value they return. Comparisons of floats do not
  round. Infinities and NaN are not values of the model.
\<close>

text \<open>The paths of the two model files; \<open>os.path.join\<close> puts a slash between its parts.\<close>

definition MODEL_DIR :: string where
  "MODEL_DIR = ''public/models/onnx-models/paraphrase-multilingual-MiniLM-L12-v2-onnx''"

definition FP32_MODEL :: string where
  "FP32_MODEL = MODEL_DIR @ ''/'' @ ''model_fp32_backup.onnx''"

definition INT8_MODEL :: string where
  "INT8_MODEL = MODEL_DIR @ ''/'' @ ''model_quantized.onnx''"

definition SIMILARITY_THRESHOLD :: real where
  "SIMILARITY_THRESHOLD = 0.98"

definition TEXT_COLUMN_WIDTH :: nat where
  "TEXT_COLUMN_WIDTH = 50"

text \<open>The eight test sentences; \<open>CHR 0xFC\<close> is the u-umlaut of the fourth.\<close>

definition TEST_SENTENCES :: "string list" where
  "TEST_SENTENCES =
    [''Was ist Stress?'',
     ''Gewaltfreie Kommunikation nach Rosenberg'',
     ''Kognitive Verzerrungen erkennen'',
     ''Ich bin w'' @ [CHR 0xFC] @ ''tend und frustriert.'',
     ''Das ist ein Strohmann-Argument.'',
     ''Emotionen verstehen und regulieren'',
     ''Vier-Seiten-Modell von Schulz von Thun'',
     ''How does emotion detection work?'']"

text \<open>The arithmetic on floats that the script uses.\<close>

record float_ops =
  np_dot :: "real list \<Rightarrow> real list \<Rightarrow> real"
  linalg_norm :: "real list \<Rightarrow> real"
  float_mul :: "real \<Rightarrow> real \<Rightarrow> real"
  float_div :: "real \<Rightarrow> real \<Rightarrow> real"
  np_mean :: "real list \<Rightarrow> real"

text \<open>
  The same operations without rounding. On the vectors of the examples below, whose
  entries are 0 and 1, float arithmetic gives the same values.
\<close>

definition exact_ops :: float_ops where
  "exact_ops =
     \<lparr>np_dot = (\<lambda>a b. sum_list (map2 (*) a b)),
      linalg_norm = (\<lambda>a. sqrt (sum_list (map (\<lambda>x. x * x) a))),
      float_mul = (*),
      float_div = (/),
      np_mean = (\<lambda>xs. sum_list xs / real (length xs))\<rparr>"

text \<open>
  A natural number in decimal, and the shape of a vector as Python prints it, for
  example \<open>(384,)\<close>.
\<close>

function show_nat :: "nat \<Rightarrow> string" where
  "show_nat n =
     (if n < 10 then [''0123456789'' ! n]
      else show_nat (n div 10) @ [''0123456789'' ! (n mod 10)])"
  by pat_completeness auto
termination
  by (relation "measure id") auto

definition shape_repr :: "real list \<Rightarrow> string" where
  "shape_repr a = ''('' @ show_nat (length a) @ '',)''"

text \<open>\<open>cosine_similarity\<close>, lines 62-71. The shape of a vector is its length.\<close>

definition cosine_similarity :: "float_ops \<Rightarrow> real list \<Rightarrow> real list \<Rightarrow> py_error + real" where
  "cosine_similarity fl a b =
     (if length a \<noteq> length b
      then Inl (ValueError (''Vector dimension mismatch: '' @ shape_repr a @ '' vs '' @ shape_repr b))
      else
        (let norm_a = linalg_norm fl a; norm_b = linalg_norm fl b
         in if norm_a = 0 \<or> norm_b = 0
            then Inl (ValueError ''Cannot compute similarity for zero-magnitude vectors'')
            else Inr (float_div fl (np_dot fl a b) (float_mul fl norm_a norm_b))))"

text \<open>
  The world around \<open>validate_models\<close>: the arithmetic on floats, whether the two model
  files exist, the message of the exception of each loader if it raises, and what
  \<open>embed\<close> returns or raises for a sentence with each of the two sessions.
\<close>

record models_env =
  ops :: float_ops
  fp32_exists :: bool
  int8_exists :: bool
  tokenizer_load_error :: "string option"
  fp32_load_error :: "string option"
  int8_load_error :: "string option"
  embed_fp32 :: "string \<Rightarrow> py_error + real list"
  embed_int8 :: "string \<Rightarrow> py_error + real list"

text \<open>
  The lines the loop prints: a sentence (shortened) with its similarity and its mark,
  or the failure notice with the first 30 characters of the sentence and the message.
\<close>

datatype report_line = ResultLine string real bool | FailedLine string string

text \<open>The body of the \<open>try\<close> of the loop up to the similarity (lines 192-196).\<close>

definition compare_one :: "models_env \<Rightarrow> string \<Rightarrow> py_error + real" where
  "compare_one env text =
     (case embed_fp32 env text of
        Inl e \<Rightarrow> Inl e
      | Inr fp32_emb \<Rightarrow>
          (case embed_int8 env text of
             Inl e \<Rightarrow> Inl e
           | Inr int8_emb \<Rightarrow> cosine_similarity (ops env) fp32_emb int8_emb))"

text \<open>
  The loop over the sentences (lines 188-205) with its two accumulators: the list
  \<open>similarities\<close> and the lines printed so far.
\<close>

fun compare_sentences ::
  "models_env \<Rightarrow> string list \<Rightarrow> real list \<Rightarrow> report_line list \<Rightarrow> real list \<times> report_line list"
where
  "compare_sentences env [] similarities printed = (similarities, printed)"
| "compare_sentences env (text # others) similarities printed =
     (case compare_one env text of
        Inr sim \<Rightarrow>
          (let short = (if length text > TEXT_COLUMN_WIDTH
                        then take (TEXT_COLUMN_WIDTH - 3) text @ ''...'' else text);
               status = (sim \<ge> SIMILARITY_THRESHOLD)
           in compare_sentences env others (similarities @ [sim])
                (printed @ [ResultLine short sim status]))
      | Inl e \<Rightarrow>
          compare_sentences env others similarities
            (printed @ [FailedLine (take 30 text) (error_message e)]))"

text \<open>\<open>min\<close> and \<open>max\<close> of a non-empty list.\<close>

definition py_min :: "real list \<Rightarrow> real" where
  "py_min xs = foldl min (hd xs) (tl xs)"

definition py_max :: "real list \<Rightarrow> real" where
  "py_max xs = foldl max (hd xs) (tl xs)"

text \<open>\<open>validate_models\<close>: the average, minimum and maximum similarity, or the exception.\<close>

definition validate_models :: "models_env \<Rightarrow> py_error + (real \<times> real \<times> real)" where
  "validate_models env =
     (if \<not> fp32_exists env then Inl (FileNotFoundError (''FP32 model not found: '' @ FP32_MODEL))
      else if \<not> int8_exists env then Inl (FileNotFoundError (''INT8 model not found: '' @ INT8_MODEL))
      else
        (case tokenizer_load_error env of
           Some m \<Rightarrow> Inl (RuntimeError (''Tokenizer load failed: '' @ m))
         | None \<Rightarrow>
        (case fp32_load_error env of
           Some m \<Rightarrow> Inl (RuntimeError (''FP32 model load failed: '' @ m))
         | None \<Rightarrow>
        (case int8_load_error env of
           Some m \<Rightarrow> Inl (RuntimeError (''INT8 model load failed: '' @ m))
         | None \<Rightarrow>
            (let similarities = fst (compare_sentences env TEST_SENTENCES [] [])
             in if similarities = [] then Inl (RuntimeError ''All embedding comparisons failed'')
                else Inr (np_mean (ops env) similarities,
                          py_min similarities, py_max similarities))))))"

text \<open>What the run of \<open>validate_models\<close> prints in its loop.\<close>

definition printed_report :: "models_env \<Rightarrow> report_line list" where
  "printed_report env = snd (compare_sentences env TEST_SENTENCES [] [])"

text \<open>\<open>main\<close> of the script: the exit code.\<close>

definition validate_main :: "models_env \<Rightarrow> int" where
  "validate_main env =
     (case validate_models env of
        Inr (avg, min_sim, max_sim) \<Rightarrow> if avg \<ge> SIMILARITY_THRESHOLD then 0 else 1
      | Inl (FileNotFoundError m) \<Rightarrow> 2
      | Inl e \<Rightarrow> 2)"

text \<open>
  Three worlds for the examples: every sentence embeds to the same vector with both
  sessions; the two sessions give orthogonal vectors; the quantized model file is missing.
  In all of them the arithmetic is \<open>exact_ops\<close>.
\<close>

definition env_equal :: models_env where
  "env_equal =
     \<lparr>ops = exact_ops, fp32_exists = True, int8_exists = True, tokenizer_load_error = None,
      fp32_load_error = None, int8_load_error = None,
      embed_fp32 = (\<lambda>t. Inr [1, 0]), embed_int8 = (\<lambda>t. Inr [1, 0])\<rparr>"



text \<open>A world in which the quantized session gives the zero vector for one sentence.\<close>

definition env_zero :: models_env where
  "env_zero =
     env_equal\<lparr>embed_int8 := (\<lambda>t. if t = ''Was ist Stress?'' then Inr [0, 0] else Inr [1, 0])\<rparr>"

section \<open>Properties of the hallucination check\<close>

text \<open>
  C2. The check suppresses exactly when the no-speech probability exceeds 0.5 together with
  an average log-probability below -0.8, or the no-speech probability exceeds 0.8 alone.
  It suppresses at (0.6, -0.9) and at (0.9, -0.1) and does not at (0.3, -0.9).
\<close>

theorem should_suppress_rule:
  "(should_suppress p l \<longleftrightarrow> (p > 0.5 \<and> l < - 0.8) \<or> p > 0.8) \<and>
   should_suppress 0.6 (- 0.9) \<and> should_suppress 0.9 (- 0.1) \<and> \<not> should_suppress 0.3 (- 0.9)"
  by (simp add: should_suppress_def)

text \<open>
  C9. When the check suppresses, the text of the output is empty, while the language and
  the two durations are those of the output built without suppression. The run still
  writes its output and exits with code 0; the decision and the two signals go to
  standard error as a warning.
\<close>

theorem suppression_keeps_metadata:
  assumes "should_suppress (getattr (result_no_speech_prob r) 0) (getattr (result_avg_logprob r) 0)"
  shows "out_text (stdout_json (transcribe_main r lang dur)) = '''' \<and>
         out_language (stdout_json (transcribe_main r lang dur)) = out_language (build_output False r lang dur) \<and>
         speech_duration_sec (stdout_json (transcribe_main r lang dur))
           = speech_duration_sec (build_output False r lang dur) \<and>
         total_duration_sec (stdout_json (transcribe_main r lang dur))
           = total_duration_sec (build_output False r lang dur) \<and>
         stderr_log (transcribe_main r lang dur)
           = [HallucinationWarning (getattr (result_no_speech_prob r) 0) (getattr (result_avg_logprob r) 0)] \<and>
         exit_code (transcribe_main r lang dur) = 0"
  using assms by (simp add: transcribe_main_def build_output_def Let_def)

theorem suppression_keeps_metadata_witness:
  "should_suppress (getattr (result_no_speech_prob sample_result) 0) (getattr (result_avg_logprob sample_result) 0) \<and>
   out_text (stdout_json (transcribe_main sample_result (Some ''de'') 2)) = '''' \<and>
   out_language (stdout_json (transcribe_main sample_result (Some ''de'') 2)) = ''en'' \<and>
   speech_duration_sec (stdout_json (transcribe_main sample_result (Some ''de'') 2)) = 2 \<and>
   total_duration_sec (stdout_json (transcribe_main sample_result (Some ''de'') 2)) = 2 \<and>
   exit_code (transcribe_main sample_result (Some ''de'') 2) = 0"
  using suppression_keeps_metadata [of sample_result "Some ''de''" 2]
  by (simp add: sample_result_def should_suppress_def getattr_def build_output_def py_or_def)

text \<open>
  C10. When the check suppresses, the segment list of the output is empty, also when the
  engine's result has segments.
\<close>

theorem suppression_empties_segments:
  assumes "should_suppress (getattr (result_no_speech_prob r) 0) (getattr (result_avg_logprob r) 0)"
  shows "out_segments (stdout_json (transcribe_main r lang dur)) = []"
  using assms by (simp add: transcribe_main_def build_output_def Let_def)

theorem suppression_empties_segments_witness:
  "should_suppress (getattr (result_no_speech_prob sample_result) 0) (getattr (result_avg_logprob sample_result) 0) \<and>
   result_segments sample_result = Some [SegDict (Some 0) (Some 1.5) (Some ''Vielen Dank.'')] \<and>
   out_segments (build_output False sample_result (Some ''de'') 2)
     = [\<lparr>seg_start = 0, seg_end = 1.5, seg_text = ''Vielen Dank.''\<rparr>] \<and>
   out_segments (stdout_json (transcribe_main sample_result (Some ''de'') 2)) = []"
  using suppression_empties_segments [of sample_result "Some ''de''" 2]
  by (simp add: sample_result_def should_suppress_def getattr_def build_output_def)

section \<open>Properties of the required-field check\<close>

text \<open>
  C4. An Emotion record that has the keys \<open>primary\<close> and \<open>confidence\<close> is returned as it
  is, whatever the types of the values under these keys.
\<close>

theorem validate_present_keys_identity:
  "has_key ''primary'' result \<Longrightarrow> has_key ''confidence'' result \<Longrightarrow>
   validate Emotion result = Inr result"
  by simp

theorem validate_present_keys_identity_witness:
  "has_key ''primary'' [(''primary'', JInt 5), (''confidence'', JString ''high''), (''note'', JNull)] \<and>
   has_key ''confidence'' [(''primary'', JInt 5), (''confidence'', JString ''high''), (''note'', JNull)] \<and>
   validate Emotion [(''primary'', JInt 5), (''confidence'', JString ''high''), (''note'', JNull)]
     = Inr [(''primary'', JInt 5), (''confidence'', JString ''high''), (''note'', JNull)]"
  using validate_present_keys_identity
    [of "[(''primary'', JInt 5), (''confidence'', JString ''high''), (''note'', JNull)]"]
  by (simp add: has_key_def)

text \<open>
  C3, as stated, asks for an error that names the first missing key. The code raises one
  error per kind, with a fixed message: a record that lacks only \<open>confidence\<close> and a
  record that lacks only \<open>primary\<close> fail with the same error.
\<close>

theorem validate_error_names_no_key:
  "first_missing Emotion [(''primary'', JString ''joy'')] = Some ''confidence'' \<and>
   first_missing Emotion [(''confidence'', JFloat 0.87)] = Some ''primary'' \<and>
   validate Emotion [(''primary'', JString ''joy'')]
     = Inl (ValueError ''Invalid emotion JSON: missing required fields'') \<and>
   validate Emotion [(''confidence'', JFloat 0.87)]
     = Inl (ValueError ''Invalid emotion JSON: missing required fields'')"
  by (simp add: first_missing_def has_key_def)

text \<open>
  C3, amended. A record that lacks a required key of its kind fails with the error of
  that kind, which does not depend on the key.
\<close>

theorem validate_missing_key_fails:
  "first_missing kind result \<noteq> None \<Longrightarrow> validate kind result = Inl (missing_fields_error kind)"
  by (cases kind) (auto simp: first_missing_def split: if_splits)

theorem validate_missing_key_fails_witness:
  "first_missing Emotion [(''primary'', JString ''joy'')] \<noteq> None \<and>
   validate Emotion [(''primary'', JString ''joy'')]
     = Inl (ValueError ''Invalid emotion JSON: missing required fields'')"
  using validate_missing_key_fails [of Emotion "[(''primary'', JString ''joy'')]"]
  by (simp add: first_missing_def has_key_def)

section \<open>Properties of the extraction\<close>

subsection \<open>The scan and the nesting depth\<close>

lemma brace_depth_append: "brace_depth (a @ b) = brace_depth a + brace_depth b"
  by (induction a) auto

lemma scan_braces_runs_out:
  "1 \<le> d \<Longrightarrow> \<forall>n. 1 \<le> n \<and> n \<le> length s \<longrightarrow> d + brace_depth (take n s) \<noteq> 0 \<Longrightarrow>
   scan_braces s i d json_end = json_end"
proof (induction s arbitrary: i d)
  case Nil
  then show ?case by simp
next
  case (Cons c rest)
  from Cons.prems(2) have first: "d + brace_depth (take 1 (c # rest)) \<noteq> 0"
    by (metis le_refl length_Cons le_add1 plus_1_eq_Suc)
  have later: "d + brace_depth [c] + brace_depth (take n rest) \<noteq> 0"
    if "1 \<le> n" "n \<le> length rest" for n
  proof -
    have "d + brace_depth (take (Suc n) (c # rest)) \<noteq> 0"
      using Cons.prems(2) that by (metis Suc_le_mono le_SucI length_Cons)
    then show ?thesis by simp
  qed
  show ?case
  proof (cases "c = CHR ''{''")
    case True
    have "scan_braces rest (i + 1) (d + 1) json_end = json_end"
    proof (rule Cons.IH)
      show "1 \<le> d + 1" using Cons.prems(1) by simp
      show "\<forall>n. 1 \<le> n \<and> n \<le> length rest \<longrightarrow> d + 1 + brace_depth (take n rest) \<noteq> 0"
        using later True by simp
    qed
    with True show ?thesis by simp
  next
    case notopen: False
    show ?thesis
    proof (cases "c = CHR ''}''")
      case True
      from first True have nz: "d - 1 \<noteq> 0" by simp
      have "scan_braces rest (i + 1) (d - 1) json_end = json_end"
      proof (rule Cons.IH)
        show "1 \<le> d - 1" using Cons.prems(1) nz by simp
        show "\<forall>n. 1 \<le> n \<and> n \<le> length rest \<longrightarrow> d - 1 + brace_depth (take n rest) \<noteq> 0"
          using later True by simp
      qed
      with True nz show ?thesis by simp
    next
      case False
      have "scan_braces rest (i + 1) d json_end = json_end"
      proof (rule Cons.IH)
        show "1 \<le> d" by (rule Cons.prems(1))
        show "\<forall>n. 1 \<le> n \<and> n \<le> length rest \<longrightarrow> d + brace_depth (take n rest) \<noteq> 0"
          using later notopen False by simp
      qed
      with notopen False show ?thesis by simp
    qed
  qed
qed

lemma scan_braces_stops:
  "1 \<le> d \<Longrightarrow> \<forall>n. 1 \<le> n \<and> n < length s \<longrightarrow> d + brace_depth (take n s) \<noteq> 0 \<Longrightarrow>
   d + brace_depth s = 0 \<Longrightarrow> scan_braces (s @ suf) i d json_end = i + length s"
proof (induction s arbitrary: i d)
  case Nil
  then show ?case by simp
next
  case (Cons c rest)
  have later: "d + brace_depth [c] + brace_depth (take n rest) \<noteq> 0"
    if "1 \<le> n" "n < length rest" for n
  proof -
    have "d + brace_depth (take (Suc n) (c # rest)) \<noteq> 0"
      using Cons.prems(2) that by (metis Suc_less_eq le_SucI length_Cons)
    then show ?thesis by simp
  qed
  have first: "d + brace_depth [c] \<noteq> 0" if "rest \<noteq> []"
  proof -
    have "1 < length (c # rest)" using that by (cases rest) auto
    then have "d + brace_depth (take 1 (c # rest)) \<noteq> 0"
      using Cons.prems(2) by (metis le_refl)
    then show ?thesis by simp
  qed
  show ?case
  proof (cases "c = CHR ''{''")
    case True
    have "scan_braces (rest @ suf) (i + 1) (d + 1) json_end = i + 1 + length rest"
    proof (rule Cons.IH)
      show "1 \<le> d + 1" using Cons.prems(1) by simp
      show "\<forall>n. 1 \<le> n \<and> n < length rest \<longrightarrow> d + 1 + brace_depth (take n rest) \<noteq> 0"
        using later True by simp
      show "d + 1 + brace_depth rest = 0" using Cons.prems(3) True by simp
    qed
    with True show ?thesis by simp
  next
    case notopen: False
    show ?thesis
    proof (cases "c = CHR ''}''")
      case True
      show ?thesis
      proof (cases "d - 1 = 0")
        case last: True
        have "rest = []"
        proof (rule ccontr)
          assume "rest \<noteq> []"
          from first [OF this] True last show False by simp
        qed
        with True last show ?thesis by simp
      next
        case nz: False
        have "scan_braces (rest @ suf) (i + 1) (d - 1) json_end = i + 1 + length rest"
        proof (rule Cons.IH)
          show "1 \<le> d - 1" using Cons.prems(1) nz by simp
          show "\<forall>n. 1 \<le> n \<and> n < length rest \<longrightarrow> d - 1 + brace_depth (take n rest) \<noteq> 0"
            using later True by simp
          show "d - 1 + brace_depth rest = 0" using Cons.prems(3) True by simp
        qed
        with True nz show ?thesis by simp
      qed
    next
      case False
      have "scan_braces (rest @ suf) (i + 1) d json_end = i + 1 + length rest"
      proof (rule Cons.IH)
        show "1 \<le> d" by (rule Cons.prems(1))
        show "\<forall>n. 1 \<le> n \<and> n < length rest \<longrightarrow> d + brace_depth (take n rest) \<noteq> 0"
          using later notopen False by simp
        show "d + brace_depth rest = 0" using Cons.prems(3) notopen False by simp
      qed
      with notopen False show ?thesis by simp
    qed
  qed
qed

lemma str_index_first:
  "c \<notin> set pre \<Longrightarrow> str_index (pre @ c # r) c = Some (length pre)"
  by (induction pre) auto

lemma find_json_span_matched:
  assumes pre: "CHR ''{'' \<notin> set pre" and s: "matched_span s"
  shows "find_json_span (pre @ s @ suf) = Inr (length pre, length pre + length s)"
proof -
  from s obtain s' where s': "s = CHR ''{'' # s'"
    by (auto simp: matched_span_def split: list.splits)
  from s have zero: "brace_depth s = 0"
    and inner: "\<forall>n. 1 \<le> n \<and> n < length s \<longrightarrow> brace_depth (take n s) \<noteq> 0"
    by (auto simp: matched_span_def list_all_iff)
  have idx: "str_index (pre @ s @ suf) (CHR ''{'') = Some (length pre)"
    using str_index_first [OF pre] by (simp add: s')
  have "scan_braces (s' @ suf) (length pre + 1) 1 (length pre) = length pre + 1 + length s'"
  proof (rule scan_braces_stops)
    show "(1::int) \<le> 1" by simp
    show "\<forall>n. 1 \<le> n \<and> n < length s' \<longrightarrow> 1 + brace_depth (take n s') \<noteq> 0"
    proof (intro allI impI)
      fix n assume n: "1 \<le> n \<and> n < length s'"
      then have "1 \<le> Suc n \<and> Suc n < length s" by (simp add: s')
      with inner have "brace_depth (take (Suc n) s) \<noteq> 0" by blast
      then show "1 + brace_depth (take n s') \<noteq> 0" by (simp add: s')
    qed
    show "1 + brace_depth s' = 0" using zero by (simp add: s')
  qed
  then have scan: "scan_braces (drop (length pre) (pre @ s @ suf)) (length pre) 0 (length pre)
      = length pre + length s"
    by (simp add: s')
  have mem: "CHR ''{'' \<in> set (pre @ s @ suf)" by (simp add: s')
  have "s \<noteq> []" by (simp add: s')
  then show ?thesis
    unfolding find_json_span_def using mem idx scan by (simp add: Let_def del: drop_append)
qed

lemma extract_matched:
  assumes pre: "CHR ''{'' \<notin> set pre" and s: "matched_span s"
  shows "extract_first_json_object (pre @ s @ suf) = Inr s"
  by (simp add: extract_first_json_object_def find_json_span_matched [OF pre s] slice_def)

lemma first_brace_split:
  assumes "CHR ''{'' \<in> set t"
  shows "\<exists>pre r. t = pre @ CHR ''{'' # r \<and> CHR ''{'' \<notin> set pre \<and>
           dropWhile (\<lambda>c. c \<noteq> CHR ''{'') t = CHR ''{'' # r"
proof -
  let ?P = "\<lambda>c. c \<noteq> CHR ''{''"
  have ne: "dropWhile ?P t \<noteq> []" using assms by simp
  then obtain x r where xr: "dropWhile ?P t = x # r" by (cases "dropWhile ?P t") auto
  have "x = CHR ''{''" using hd_dropWhile [OF ne] xr by simp
  moreover have "t = takeWhile ?P t @ dropWhile ?P t" by simp
  moreover have "CHR ''{'' \<notin> set (takeWhile ?P t)" by (auto dest: set_takeWhileD)
  ultimately show ?thesis using xr by metis
qed

lemma never_closes_iff:
  "never_closes t \<longleftrightarrow>
     (\<forall>n. 1 \<le> n \<and> n \<le> length (dropWhile (\<lambda>c. c \<noteq> CHR ''{'') t) \<longrightarrow>
          brace_depth (take n (dropWhile (\<lambda>c. c \<noteq> CHR ''{'') t)) \<noteq> 0)"
  unfolding never_closes_def Let_def list_all_iff
  by (auto simp del: upt_Suc simp: less_Suc_eq_le)

lemma find_json_span_never_closes:
  assumes mem: "CHR ''{'' \<in> set t" and nc: "never_closes t"
  shows "find_json_span t = Inl UnbalancedBraces"
proof -
  from first_brace_split [OF mem] obtain pre r where
    t: "t = pre @ CHR ''{'' # r" and pre: "CHR ''{'' \<notin> set pre"
    and dw: "dropWhile (\<lambda>c. c \<noteq> CHR ''{'') t = CHR ''{'' # r" by blast
  from nc have all: "\<forall>n. 1 \<le> n \<and> n \<le> Suc (length r) \<longrightarrow> brace_depth (take n (CHR ''{'' # r)) \<noteq> 0"
    unfolding never_closes_iff dw by simp
  have "scan_braces r (length pre + 1) 1 (length pre) = length pre"
  proof (rule scan_braces_runs_out)
    show "(1::int) \<le> 1" by simp
    show "\<forall>n. 1 \<le> n \<and> n \<le> length r \<longrightarrow> 1 + brace_depth (take n r) \<noteq> 0"
    proof (intro allI impI)
      fix n assume "1 \<le> n \<and> n \<le> length r"
      then have "1 \<le> Suc n \<and> Suc n \<le> Suc (length r)" by simp
      with all have "brace_depth (take (Suc n) (CHR ''{'' # r)) \<noteq> 0" by blast
      then show "1 + brace_depth (take n r) \<noteq> 0" by simp
    qed
  qed
  then have scan: "scan_braces (drop (length pre) t) (length pre) 0 (length pre) = length pre"
    by (simp add: t)
  have idx: "str_index t (CHR ''{'') = Some (length pre)"
    using str_index_first [OF pre] by (simp add: t)
  show ?thesis
    unfolding find_json_span_def using mem idx scan by (simp add: Let_def)
qed

lemma find_json_span_closes:
  assumes mem: "CHR ''{'' \<in> set t" and nc: "\<not> never_closes t"
  shows "\<exists>a b. find_json_span t = Inr (a, b) \<and> a < b \<and> b \<le> length t"
proof -
  from first_brace_split [OF mem] obtain pre r where
    t: "t = pre @ CHR ''{'' # r" and pre: "CHR ''{'' \<notin> set pre"
    and dw: "dropWhile (\<lambda>c. c \<noteq> CHR ''{'') t = CHR ''{'' # r" by blast
  let ?rest = "CHR ''{'' # r"
  let ?Z = "\<lambda>n. 1 \<le> n \<and> n \<le> length ?rest \<and> brace_depth (take n ?rest) = 0"
  from nc have "\<exists>n. ?Z n"
    unfolding never_closes_iff dw by auto
  then obtain n where n: "?Z n" and least: "\<forall>m<n. \<not> ?Z m"
    using exists_least_iff [of ?Z] by blast
  let ?s = "take n ?rest"
  have len: "length ?s = n" using n by simp
  have "matched_span ?s"
    unfolding matched_span_def list_all_iff
  proof (intro conjI ballI)
    show "case ?s of [] \<Rightarrow> False | c # _ \<Rightarrow> c = CHR ''{''"
      using n by (cases n) auto
    show "brace_depth ?s = 0" using n by simp
  next
    fix m assume "m \<in> set [1..<length ?s]"
    then have m: "1 \<le> m" "m < n" using len by auto
    with least n have "brace_depth (take m ?rest) \<noteq> 0" by auto
    moreover have "take m ?s = take m ?rest" using m by (simp add: min_def)
    ultimately show "brace_depth (take m ?s) \<noteq> 0" by simp
  qed
  moreover have "t = pre @ ?s @ drop n ?rest" by (simp add: t)
  ultimately have "find_json_span t = Inr (length pre, length pre + length ?s)"
    using find_json_span_matched [OF pre, of ?s "drop n ?rest"] by simp
  moreover have "length pre < length pre + length ?s" using n len by simp
  moreover have "length pre + length ?s \<le> length t" using n len by (simp add: t)
  ultimately show ?thesis by blast
qed

subsection \<open>The span of nested objects\<close>

text \<open>
  C6. When the text before the first opening brace is followed by a matched span, the
  extraction returns that span: it ends at the brace that matches the first one, not at
  an inner closing brace, and whatever follows is left out.
\<close>

theorem extract_ends_at_matching_brace:
  assumes "CHR ''{'' \<notin> set pre" and "matched_span s"
  shows "find_json_span (pre @ s @ suf) = Inr (length pre, length pre + length s) \<and>
         extract_first_json_object (pre @ s @ suf) = Inr s"
  using find_json_span_matched [OF assms] extract_matched [OF assms] by simp

theorem extract_ends_at_matching_brace_witness:
  \<open>CHR ''{'' \<notin> set ''noise '' \<and> matched_span ''{"a": {"b": 1}}'' \<and>
   find_json_span ''noise {"a": {"b": 1}} noise'' = Inr (6, 21) \<and>
   extract_first_json_object ''noise {"a": {"b": 1}} noise'' = Inr ''{"a": {"b": 1}}''\<close>
  using extract_ends_at_matching_brace [of \<open>''noise ''\<close> \<open>''{"a": {"b": 1}}''\<close> \<open>'' noise''\<close>]
  by (simp add: matched_span_def upt_rec)

subsection \<open>The two failures\<close>

text \<open>
  C5. A text without an opening brace fails with \<open>NoOpeningBrace\<close>; a text whose scan
  from the first opening brace never returns to depth zero fails with
  \<open>UnbalancedBraces\<close>; the extraction fails in no other way, and the two errors differ.
\<close>

theorem extract_failure_kinds:
  "(CHR ''{'' \<notin> set t \<longrightarrow> extract_first_json_object t = Inl NoOpeningBrace) \<and>
   (CHR ''{'' \<in> set t \<and> never_closes t \<longrightarrow> extract_first_json_object t = Inl UnbalancedBraces) \<and>
   (\<forall>e. extract_first_json_object t = Inl e \<longrightarrow>
        (e = NoOpeningBrace \<and> CHR ''{'' \<notin> set t) \<or>
        (e = UnbalancedBraces \<and> CHR ''{'' \<in> set t \<and> never_closes t)) \<and>
   NoOpeningBrace \<noteq> UnbalancedBraces"
proof (intro conjI impI allI)
  assume "CHR ''{'' \<notin> set t"
  then show "extract_first_json_object t = Inl NoOpeningBrace"
    by (simp add: extract_first_json_object_def find_json_span_def)
next
  assume "CHR ''{'' \<in> set t \<and> never_closes t"
  then show "extract_first_json_object t = Inl UnbalancedBraces"
    by (simp add: extract_first_json_object_def find_json_span_never_closes)
next
  fix e assume fail: "extract_first_json_object t = Inl e"
  show "(e = NoOpeningBrace \<and> CHR ''{'' \<notin> set t) \<or>
        (e = UnbalancedBraces \<and> CHR ''{'' \<in> set t \<and> never_closes t)"
  proof (cases "CHR ''{'' \<in> set t")
    case False
    with fail show ?thesis by (simp add: extract_first_json_object_def find_json_span_def)
  next
    case True
    have nc: "never_closes t"
    proof (rule ccontr)
      assume "\<not> never_closes t"
      from find_json_span_closes [OF True this] fail show False
        by (auto simp: extract_first_json_object_def)
    qed
    with True fail show ?thesis
      by (simp add: extract_first_json_object_def find_json_span_never_closes)
  qed
next
  show "NoOpeningBrace \<noteq> UnbalancedBraces"
    by (simp add: NoOpeningBrace_def UnbalancedBraces_def)
qed

theorem extract_failure_kinds_witness:
  \<open>CHR ''{'' \<notin> set ''no json here'' \<and>
   extract_first_json_object ''no json here'' = Inl NoOpeningBrace \<and>
   CHR ''{'' \<in> set ''{"a": 1'' \<and> never_closes ''{"a": 1'' \<and>
   extract_first_json_object ''{"a": 1'' = Inl UnbalancedBraces\<close>
  using extract_failure_kinds [of \<open>''no json here''\<close>] extract_failure_kinds [of \<open>''{"a": 1''\<close>]
  by (simp add: never_closes_def upt_rec)

subsection \<open>JSON object literals: braces and balance\<close>

lemma brace_free_depth: "brace_free s \<Longrightarrow> brace_depth s = 0"
  by (induction s) (auto simp: brace_free_def)

lemma brace_free_take: "brace_free s \<Longrightarrow> brace_free (take n s)"
  by (auto simp: brace_free_def dest: in_set_takeD)

lemma brace_free_balanced: "brace_free s \<Longrightarrow> balanced s"
  by (simp add: balanced_def brace_free_depth brace_free_take)

lemma balanced_append: "balanced a \<Longrightarrow> balanced b \<Longrightarrow> balanced (a @ b)"
proof -
  assume a: "balanced a" and b: "balanced b"
  have "0 \<le> brace_depth (take n (a @ b))" for n
  proof -
    have "brace_depth (take n (a @ b))
        = brace_depth (take n a) + brace_depth (take (n - length a) b)"
      by (simp add: brace_depth_append)
    with a b show ?thesis by (simp add: balanced_def)
  qed
  with a b show ?thesis by (simp add: balanced_def brace_depth_append)
qed

lemma balanced_braces: "balanced m \<Longrightarrow> balanced (''{'' @ m @ ''}'')"
proof -
  assume m: "balanced m"
  have "0 \<le> brace_depth (take n (''{'' @ m @ ''}''))" for n
  proof (cases n)
    case 0
    then show ?thesis by simp
  next
    case (Suc k)
    have "brace_depth (take k (m @ ''}''))
        = brace_depth (take k m) + brace_depth (take (k - length m) ''}'')"
      by (simp add: brace_depth_append)
    moreover have "- 1 \<le> brace_depth (take j ''}'')" for j by (cases j) auto
    moreover have "0 \<le> brace_depth (take k m)" using m by (simp add: balanced_def)
    ultimately have "- 1 \<le> brace_depth (take k (m @ ''}''))"
      using add_mono [of 0 "brace_depth (take k m)" "- 1" "brace_depth (take (k - length m) ''}'')"]
      by simp
    with Suc show ?thesis by simp
  qed
  with m show ?thesis by (simp add: balanced_def brace_depth_append)
qed

lemma balanced_matched_span: "balanced m \<Longrightarrow> matched_span (''{'' @ m @ ''}'')"
proof -
  assume m: "balanced m"
  have "brace_depth (take n (''{'' @ m @ ''}'')) \<noteq> 0"
    if "n \<in> set [1..<length (''{'' @ m @ ''}'')]" for n
  proof -
    from that have "1 \<le> n \<and> n < length (''{'' @ m @ ''}'')"
      by (simp only: set_upt atLeastLessThan_iff)
    then obtain k where k: "n = Suc k" "k \<le> length m" by (cases n) auto
    have "0 \<le> brace_depth (take k m)" using m by (simp add: balanced_def)
    with k show ?thesis by simp
  qed
  moreover have "brace_depth (''{'' @ m @ ''}'') = 0"
    using m by (simp add: balanced_def brace_depth_append)
  ultimately show ?thesis by (simp add: matched_span_def list_all_iff)
qed

lemma num_step_alphabet: "num_step st c = Some st' \<Longrightarrow> c \<in> set ''0123456789+-.eE''"
  by (cases st) (auto simp: is_digit_def split: if_splits)

lemma num_run_alphabet: "num_run st s = Some st' \<Longrightarrow> set s \<subseteq> set ''0123456789+-.eE''"
proof (induction s arbitrary: st)
  case Nil
  show ?case by simp
next
  case (Cons c cs)
  then obtain st1 where st1: "num_step st c = Some st1" "num_run st1 cs = Some st'"
    by (cases "num_step st c") simp_all
  from num_step_alphabet [OF st1(1)] Cons.IH [OF st1(2)] show ?case by simp
qed

lemma json_number_alphabet: "json_number s \<Longrightarrow> set s \<subseteq> set ''0123456789+-.eE''"
proof -
  assume "json_number s"
  then obtain st where "num_run NStart s = Some st"
    by (cases "num_run NStart s") (simp_all add: json_number_def)
  then show ?thesis by (rule num_run_alphabet)
qed

lemma json_number_brace_free: "json_number s \<Longrightarrow> brace_free s"
  using json_number_alphabet [of s] by (auto simp: brace_free_def)

lemma json_number_no_quote: "json_number s \<Longrightarrow> CHR 0x22 \<notin> set s"
  using json_number_alphabet [of s] by auto

lemma json_ws_brace_free: "json_ws w \<Longrightarrow> brace_free w"
  by (induction w) (auto simp: json_ws_def brace_free_def is_ws_def)

lemma json_ws_no_quote: "json_ws w \<Longrightarrow> CHR 0x22 \<notin> set w"
  by (induction w) (auto simp: json_ws_def is_ws_def)

text \<open>A JSON text whose strings hold no brace is balanced.\<close>

lemma json_balanced:
  "json_value brace_free s \<Longrightarrow> balanced s"
  "json_object brace_free s \<Longrightarrow> balanced s"
  "json_members brace_free s \<Longrightarrow> balanced s"
  "json_elements brace_free s \<Longrightarrow> balanced s"
proof (induction rule: json_value_json_object_json_members_json_elements.inducts)
  case value_true
  show ?case by (rule brace_free_balanced) (simp add: brace_free_def)
next
  case value_false
  show ?case by (rule brace_free_balanced) (simp add: brace_free_def)
next
  case value_null
  show ?case by (rule brace_free_balanced) (simp add: brace_free_def)
next
  case (value_number s)
  then show ?case by (simp add: brace_free_balanced json_number_brace_free)
next
  case (value_string s)
  then show ?case by (simp add: brace_free_balanced)
next
  case (value_object s)
  then show ?case by simp
next
  case (value_empty_array w)
  have "brace_free (''['' @ w @ '']'')"
    using json_ws_brace_free [OF value_empty_array] by (simp add: brace_free_def)
  then show ?case by (rule brace_free_balanced)
next
  case (value_array es)
  have "balanced ''[''" "balanced '']''"
    by (rule brace_free_balanced, simp add: brace_free_def)+
  with value_array.IH show ?case by (intro balanced_append)
next
  case (empty_object w)
  then have "balanced w" by (simp add: brace_free_balanced json_ws_brace_free)
  then show ?case by (rule balanced_braces)
next
  case (object ms)
  then show ?case by (simp only: balanced_braces)
next
  case (member w1 k w2 w3 v w4)
  have "balanced '':''" by (rule brace_free_balanced) (simp add: brace_free_def)
  have "balanced w1" "balanced w2" "balanced w3" "balanced w4" "balanced k"
    using member by (simp_all add: brace_free_balanced json_ws_brace_free)
  with member.IH \<open>balanced '':''\<close> show ?case by (intro balanced_append)
next
  case (members m ms)
  have "balanced '',''" by (rule brace_free_balanced) (simp add: brace_free_def)
  with members show ?case by (intro balanced_append)
next
  case (element w1 v w2)
  have "balanced w1" "balanced w2"
    using element by (simp_all add: brace_free_balanced json_ws_brace_free)
  with element.IH show ?case by (intro balanced_append)
next
  case (elements e es)
  have "balanced '',''" by (rule brace_free_balanced) (simp add: brace_free_def)
  with elements show ?case by (intro balanced_append)
qed

lemma json_object_matched_span:
  assumes "json_object brace_free s"
  shows "matched_span s"
  using assms
proof cases
  case (empty_object w)
  then show ?thesis
    using balanced_matched_span [OF brace_free_balanced [OF json_ws_brace_free]] by simp
next
  case (object ms)
  then show ?thesis using balanced_matched_span [OF json_balanced(3)] by simp
qed

subsection \<open>What a JSON object literal looks like\<close>

lemma json_object_ends:
  assumes "json_object ok s"
  shows "\<exists>m. s = CHR ''{'' # m @ ''}''"
  using assms by cases auto

lemma string_chars_no_quote:
  "string_chars cs \<Longrightarrow> CHR 0x5C \<notin> set cs \<Longrightarrow> CHR 0x22 \<notin> set cs"
  by (induction cs) (auto split: if_splits)

lemma json_string_two_quotes:
  assumes "json_string s" and "CHR 0x5C \<notin> set s"
  shows "count_list s (CHR 0x22) = 2"
proof -
  from assms(1) obtain r where s: "s = CHR 0x22 # r" and r: "r \<noteq> []" "last r = CHR 0x22"
    and body: "string_chars (butlast r)"
    by (cases s) (auto simp: json_string_def)
  from r have split: "r = butlast r @ [CHR 0x22]" by (metis append_butlast_last_id)
  have "CHR 0x5C \<notin> set (butlast r)" using assms(2) s by (auto dest: in_set_butlastD)
  from string_chars_no_quote [OF body this]
  have "count_list (butlast r) (CHR 0x22) = 0" by (rule count_notin)
  then have "count_list r (CHR 0x22) = 1" by (subst split) simp
  then show ?thesis by (simp add: s)
qed

text \<open>A JSON text without a backslash has an even number of quotes.\<close>

lemma json_even_quotes:
  "json_value ok s \<Longrightarrow> CHR 0x5C \<notin> set s \<Longrightarrow> even (count_list s (CHR 0x22))"
  "json_object ok s \<Longrightarrow> CHR 0x5C \<notin> set s \<Longrightarrow> even (count_list s (CHR 0x22))"
  "json_members ok s \<Longrightarrow> CHR 0x5C \<notin> set s \<Longrightarrow> even (count_list s (CHR 0x22))"
  "json_elements ok s \<Longrightarrow> CHR 0x5C \<notin> set s \<Longrightarrow> even (count_list s (CHR 0x22))"
proof (induction rule: json_value_json_object_json_members_json_elements.inducts)
  case (value_number s)
  then show ?case by (simp add: json_number_no_quote)
next
  case (value_string s)
  then show ?case by (simp add: json_string_two_quotes)
next
  case (value_empty_array w)
  then show ?case by (simp add: json_ws_no_quote)
next
  case (empty_object w)
  then show ?case by (simp add: json_ws_no_quote)
next
  case (member w1 k w2 w3 v w4)
  then show ?case
    by (simp add: json_ws_no_quote json_string_two_quotes)
next
  case (element w1 v w2)
  then show ?case by (simp add: json_ws_no_quote)
qed simp_all

lemma starts_with_quote_append: "starts_with_quote m \<Longrightarrow> starts_with_quote (m @ y)"
  by (induction m) (auto simp: starts_with_quote_def)

lemma starts_with_quote_ws: "json_ws w \<Longrightarrow> starts_with_quote x \<Longrightarrow> starts_with_quote (w @ x)"
  by (induction w) (auto simp: starts_with_quote_def json_ws_def)

lemma json_string_starts: "json_string k \<Longrightarrow> starts_with_quote (k @ y)"
  by (cases k) (auto simp: json_string_def starts_with_quote_def is_ws_def)

text \<open>The members of an object start with the quote of the first key.\<close>

lemma json_members_start:
  "json_value ok s \<Longrightarrow> True"
  "json_object ok s \<Longrightarrow> True"
  "json_members ok s \<Longrightarrow> starts_with_quote s"
  "json_elements ok s \<Longrightarrow> True"
proof (induction rule: json_value_json_object_json_members_json_elements.inducts)
  case (member w1 k w2 w3 v w4)
  then show ?case by (intro starts_with_quote_ws json_string_starts)
next
  case (members m ms)
  then show ?case by (intro starts_with_quote_append)
qed simp_all

lemma braces_around_other_text:
  assumes "\<not> json_ws m" and "\<not> starts_with_quote m"
  shows "\<not> json_object ok (''{'' @ m @ ''}'')"
proof
  assume obj: "json_object ok (''{'' @ m @ ''}'')"
  define s where "s = ''{'' @ m @ ''}''"
  with obj have "json_object ok s" by simp
  then show False
  proof cases
    case (empty_object w)
    with s_def have "m = w" by simp
    with empty_object assms(1) show False by simp
  next
    case (object ms)
    with s_def have "m = ms" by simp
    with json_members_start(3) [OF object(2)] assms(2) show False by simp
  qed
qed

subsection \<open>The two sample responses\<close>

lemma object_with_brace_in_string: \<open>json_object any_string ''{"a": "}"}''\<close>
proof -
  have k: \<open>json_string ''"a"''\<close> by (simp add: json_string_def)
  have v: \<open>json_value any_string ''"}"''\<close>
    by (rule value_string) (simp_all add: json_string_def any_string_def)
  have \<open>json_members any_string ([] @ ''"a"'' @ [] @ '':'' @ '' '' @ ''"}"'' @ [])\<close>
    by (rule member [OF _ k _ _ _ v]) (simp_all add: json_ws_def is_ws_def any_string_def)
  then have \<open>json_object any_string (''{'' @ ''"a": "}"'' @ ''}'')\<close>
    by (intro object) simp
  then show ?thesis by simp
qed

lemma small_object: \<open>json_object any_string ''{"a": 1}''\<close>
proof -
  have k: \<open>json_string ''"a"''\<close> by (simp add: json_string_def)
  have v: \<open>json_value any_string ''1''\<close>
    by (rule value_number) (simp add: json_number_def is_digit_def)
  have \<open>json_members any_string ([] @ ''"a"'' @ [] @ '':'' @ '' '' @ ''1'' @ [])\<close>
    by (rule member [OF _ k _ _ _ v]) (simp_all add: json_ws_def is_ws_def any_string_def)
  then have \<open>json_object any_string (''{'' @ ''"a": 1'' @ ''}'')\<close>
    by (intro object) simp
  then show ?thesis by simp
qed

lemma cut_is_no_object: \<open>\<not> json_object any_string ''{"a": "}''\<close>
proof
  assume \<open>json_object any_string ''{"a": "}''\<close>
  from json_even_quotes(2) [OF this] show False by simp
qed

lemma prose_braces_no_object: \<open>\<not> json_object any_string (''{'' @ ''k: v'' @ ''}'')\<close>
  by (rule braces_around_other_text)
    (simp_all add: json_ws_def is_ws_def starts_with_quote_def)

lemma prose_to_end_no_object:
  \<open>\<not> json_object any_string (''{'' @ ''k: v}, result: {"a": 1'' @ ''}'')\<close>
  by (rule braces_around_other_text)
    (simp_all add: json_ws_def is_ws_def starts_with_quote_def)

text \<open>The first response holds one JSON object literal, at \<open>[2, 12)\<close>.\<close>

lemma only_object_literal:
  assumes "a < b" "b \<le> length brace_in_string_text"
    "json_object any_string (slice brace_in_string_text a b)"
  shows "a = 2 \<and> b = 12"
proof -
  from json_object_ends [OF assms(3)] obtain m where
    m: "slice brace_in_string_text a b = CHR ''{'' # m @ ''}''" by blast
  have a14: "a < 14" and b14: "b \<le> 14"
    using assms(1,2) by (simp_all add: brace_in_string_text_def)
  have "hd (slice brace_in_string_text a b) = brace_in_string_text ! a"
    using assms(1) a14 by (simp add: slice_def hd_drop_conv_nth brace_in_string_text_def)
  with m have fst: "brace_in_string_text ! a = CHR ''{''" by simp
  have a2: "a = 2"
  proof -
    have "[i \<leftarrow> [0..<14]. brace_in_string_text ! i = CHR ''{''] = [2]" by code_simp
    moreover from a14 fst
    have "a \<in> set [i \<leftarrow> [0..<14]. brace_in_string_text ! i = CHR ''{'']" by simp
    ultimately show ?thesis by simp
  qed
  have "last (slice brace_in_string_text a b) = brace_in_string_text ! (b - 1)"
    using assms(1) b14 a14
    by (simp add: slice_def last_conv_nth brace_in_string_text_def min_def)
  with m have lst: "brace_in_string_text ! (b - 1) = CHR ''}''" by simp
  have "b = 10 \<or> b = 12"
  proof -
    have "[i \<leftarrow> [0..<14]. brace_in_string_text ! i = CHR ''}''] = [9, 11]" by code_simp
    moreover from b14 assms(1) lst
    have "b - 1 \<in> set [i \<leftarrow> [0..<14]. brace_in_string_text ! i = CHR ''}'']" by simp
    ultimately have "b - 1 = 9 \<or> b - 1 = 11" by simp
    with assms(1) show ?thesis by arith
  qed
  moreover have "b \<noteq> 10"
  proof
    assume "b = 10"
    with a2 assms(3) have \<open>json_object any_string ''{"a": "}''\<close>
      by (simp add: slice_def brace_in_string_text_def)
    with cut_is_no_object show False by simp
  qed
  ultimately show ?thesis using a2 by simp
qed

lemma only_object_literal_set:
  "{(a, b). a < b \<and> b \<le> length brace_in_string_text \<and>
            json_object any_string (slice brace_in_string_text a b)} = {(2, 12)}"
proof -
  have \<open>slice brace_in_string_text 2 12 = ''{"a": "}"}''\<close>
    by (simp add: slice_def brace_in_string_text_def)
  moreover have "(2::nat) < 12 \<and> 12 \<le> length brace_in_string_text"
    by (simp add: brace_in_string_text_def)
  ultimately show ?thesis using only_object_literal object_with_brace_in_string by auto
qed

text \<open>The second response holds one JSON object literal, at \<open>[23, 31)\<close>.\<close>

lemma only_object_literal_in_prose:
  assumes "a < b" "b \<le> length brace_in_prose_text"
    "json_object any_string (slice brace_in_prose_text a b)"
  shows "a = 23 \<and> b = 31"
proof -
  from json_object_ends [OF assms(3)] obtain m where
    m: "slice brace_in_prose_text a b = CHR ''{'' # m @ ''}''" by blast
  have a31: "a < 31" and b31: "b \<le> 31"
    using assms(1,2) by (simp_all add: brace_in_prose_text_def)
  have "hd (slice brace_in_prose_text a b) = brace_in_prose_text ! a"
    using assms(1) a31 by (simp add: slice_def hd_drop_conv_nth brace_in_prose_text_def)
  with m have fst: "brace_in_prose_text ! a = CHR ''{''" by simp
  have a_cases: "a = 7 \<or> a = 23"
  proof -
    have "[i \<leftarrow> [0..<31]. brace_in_prose_text ! i = CHR ''{''] = [7, 23]" by code_simp
    moreover from a31 fst
    have "a \<in> set [i \<leftarrow> [0..<31]. brace_in_prose_text ! i = CHR ''{'']" by simp
    ultimately show ?thesis by simp
  qed
  have "last (slice brace_in_prose_text a b) = brace_in_prose_text ! (b - 1)"
    using assms(1) b31 a31
    by (simp add: slice_def last_conv_nth brace_in_prose_text_def min_def)
  with m have lst: "brace_in_prose_text ! (b - 1) = CHR ''}''" by simp
  have b_cases: "b = 13 \<or> b = 31"
  proof -
    have "[i \<leftarrow> [0..<31]. brace_in_prose_text ! i = CHR ''}''] = [12, 30]" by code_simp
    moreover from b31 assms(1) lst
    have "b - 1 \<in> set [i \<leftarrow> [0..<31]. brace_in_prose_text ! i = CHR ''}'']" by simp
    ultimately have "b - 1 = 12 \<or> b - 1 = 30" by simp
    with assms(1) show ?thesis by arith
  qed
  have "a \<noteq> 7"
  proof
    assume a7: "a = 7"
    from b_cases show False
    proof
      assume "b = 13"
      with a7 assms(3) prose_braces_no_object show False
        by (simp add: slice_def brace_in_prose_text_def)
    next
      assume "b = 31"
      with a7 assms(3) prose_to_end_no_object show False
        by (simp add: slice_def brace_in_prose_text_def)
    qed
  qed
  with a_cases have "a = 23" by simp
  moreover from this assms(1) b_cases have "b = 31" by simp
  ultimately show ?thesis by simp
qed

lemma only_object_literal_in_prose_set:
  "{(a, b). a < b \<and> b \<le> length brace_in_prose_text \<and>
            json_object any_string (slice brace_in_prose_text a b)} = {(23, 31)}"
proof -
  have \<open>slice brace_in_prose_text 23 31 = ''{"a": 1}''\<close>
    by (simp add: slice_def brace_in_prose_text_def)
  moreover have "(23::nat) < 31 \<and> 31 \<le> length brace_in_prose_text"
    by (simp add: brace_in_prose_text_def)
  ultimately show ?thesis using only_object_literal_in_prose small_object by auto
qed

subsection \<open>An object literal in prose\<close>

text \<open>
  C1, as stated, fails on both sample responses. Each holds exactly one well-formed JSON
  object literal. In the first, the scan counts the closing brace inside the string value
  and returns the span \<open>[2, 10)\<close>, two characters short of the literal at \<open>[2, 12)\<close>. In
  the second, the scan starts at the first opening brace, which belongs to the prose, and
  returns the prose's \<open>{k: v}\<close>, which is no JSON object, instead of the literal at
  \<open>[23, 31)\<close>.
\<close>

theorem extract_misses_the_object:
  \<open>{(a, b). a < b \<and> b \<le> length brace_in_string_text \<and>
            json_object any_string (slice brace_in_string_text a b)} = {(2, 12)} \<and>
   slice brace_in_string_text 2 12 = ''{"a": "}"}'' \<and>
   find_json_span brace_in_string_text = Inr (2, 10) \<and>
   extract_first_json_object brace_in_string_text = Inr ''{"a": "}'' \<and>
   {(a, b). a < b \<and> b \<le> length brace_in_prose_text \<and>
            json_object any_string (slice brace_in_prose_text a b)} = {(23, 31)} \<and>
   slice brace_in_prose_text 23 31 = ''{"a": 1}'' \<and>
   find_json_span brace_in_prose_text = Inr (7, 13) \<and>
   extract_first_json_object brace_in_prose_text = Inr ''{k: v}''\<close>
proof -
  have \<open>slice brace_in_string_text 2 12 = ''{"a": "}"}''\<close>
    by (simp add: slice_def brace_in_string_text_def)
  moreover have \<open>find_json_span brace_in_string_text = Inr (2, 10)\<close>
    by (simp add: find_json_span_def brace_in_string_text_def)
  moreover have \<open>extract_first_json_object brace_in_string_text = Inr ''{"a": "}''\<close>
    by (simp add: extract_first_json_object_def find_json_span_def slice_def
        brace_in_string_text_def)
  moreover have \<open>slice brace_in_prose_text 23 31 = ''{"a": 1}''\<close>
    by (simp add: slice_def brace_in_prose_text_def)
  moreover have \<open>find_json_span brace_in_prose_text = Inr (7, 13)\<close>
    by (simp add: find_json_span_def brace_in_prose_text_def)
  moreover have \<open>extract_first_json_object brace_in_prose_text = Inr ''{k: v}''\<close>
    by (simp add: extract_first_json_object_def find_json_span_def slice_def
        brace_in_prose_text_def)
  ultimately show ?thesis
    using only_object_literal_set only_object_literal_in_prose_set by simp
qed

text \<open>
  C1, amended. When the text before the object literal has no opening brace and no string
  of the literal, key or value, holds a brace, the extraction returns exactly the span of
  the literal, whatever follows it.
\<close>

theorem extract_json_object_brace_free_strings:
  assumes "CHR ''{'' \<notin> set pre" and "json_object brace_free obj"
  shows "find_json_span (pre @ obj @ suf) = Inr (length pre, length pre + length obj) \<and>
         extract_first_json_object (pre @ obj @ suf) = Inr obj"
proof -
  have span: "matched_span obj" using assms(2) by (rule json_object_matched_span)
  show ?thesis
    using find_json_span_matched [OF assms(1) span] extract_matched [OF assms(1) span]
    by simp
qed

text \<open>The end-to-end scenario of the specification.\<close>

lemma emotion_object:
  \<open>json_object brace_free
     ''{"primary": "frustration", "confidence": 0.87, "markers": ["doch Unsinn"]}''\<close>
proof -
  have ws: "json_ws []" \<open>json_ws '' ''\<close> by (simp_all add: json_ws_def is_ws_def)
  have k1: \<open>json_string ''"primary"''\<close> \<open>brace_free ''"primary"''\<close>
    by (simp_all add: json_string_def brace_free_def)
  have k2: \<open>json_string ''"confidence"''\<close> \<open>brace_free ''"confidence"''\<close>
    by (simp_all add: json_string_def brace_free_def)
  have k3: \<open>json_string ''"markers"''\<close> \<open>brace_free ''"markers"''\<close>
    by (simp_all add: json_string_def brace_free_def)
  have v1: \<open>json_value brace_free ''"frustration"''\<close>
    by (rule value_string) (simp_all add: json_string_def brace_free_def)
  have v2: \<open>json_value brace_free ''0.87''\<close>
    by (rule value_number) (simp add: json_number_def is_digit_def)
  have s3: \<open>json_value brace_free ''"doch Unsinn"''\<close>
    by (rule value_string) (simp_all add: json_string_def brace_free_def)
  have \<open>json_elements brace_free ([] @ ''"doch Unsinn"'' @ [])\<close>
    by (rule element [OF ws(1) s3 ws(1)])
  then have \<open>json_value brace_free (''['' @ ''"doch Unsinn"'' @ '']'')\<close>
    by (intro value_array) simp
  then have v3: \<open>json_value brace_free ''["doch Unsinn"]''\<close> by simp
  have m1: \<open>json_members brace_free ([] @ ''"primary"'' @ [] @ '':'' @ '' '' @ ''"frustration"'' @ [])\<close>
    by (rule member [OF ws(1) k1 ws(1) ws(2) v1 ws(1)])
  have m2: \<open>json_members brace_free ('' '' @ ''"confidence"'' @ [] @ '':'' @ '' '' @ ''0.87'' @ [])\<close>
    by (rule member [OF ws(2) k2 ws(1) ws(2) v2 ws(1)])
  have m3: \<open>json_members brace_free
      ('' '' @ ''"markers"'' @ [] @ '':'' @ '' '' @ ''["doch Unsinn"]'' @ [])\<close>
    by (rule member [OF ws(2) k3 ws(1) ws(2) v3 ws(1)])
  have \<open>json_object brace_free (''{'' @
      (([] @ ''"primary"'' @ [] @ '':'' @ '' '' @ ''"frustration"'' @ []) @ '','' @
       ('' '' @ ''"confidence"'' @ [] @ '':'' @ '' '' @ ''0.87'' @ []) @ '','' @
       ('' '' @ ''"markers"'' @ [] @ '':'' @ '' '' @ ''["doch Unsinn"]'' @ [])) @ ''}'')\<close>
    by (intro object members m1 m2 m3)
  then show ?thesis by simp
qed

theorem extract_json_object_brace_free_strings_witness:
  \<open>CHR ''{'' \<notin> set (''Here is the result:'' @ [CHR 0x0A]) \<and>
   json_object brace_free
     ''{"primary": "frustration", "confidence": 0.87, "markers": ["doch Unsinn"]}'' \<and>
   extract_first_json_object
     (''Here is the result:'' @ [CHR 0x0A] @
      ''{"primary": "frustration", "confidence": 0.87, "markers": ["doch Unsinn"]}'' @
      [CHR 0x0A] @ ''Hope that helps!'')
   = Inr ''{"primary": "frustration", "confidence": 0.87, "markers": ["doch Unsinn"]}''\<close>
  using extract_json_object_brace_free_strings
    [of \<open>''Here is the result:'' @ [CHR 0x0A]\<close>
        \<open>''{"primary": "frustration", "confidence": 0.87, "markers": ["doch Unsinn"]}''\<close>
        \<open>[CHR 0x0A] @ ''Hope that helps!''\<close>]
    emotion_object
  by simp

subsection \<open>From the response to the record\<close>

text \<open>
  The whole path on the end-to-end scenario: when \<open>json.loads\<close> parses the extracted
  text into a record with the two required keys, \<open>analyze_emotion\<close> returns that record;
  a record without \<open>confidence\<close> ends in the \<open>RuntimeError\<close> that wraps the fixed message.
\<close>

lemma analyze_emotion_scenario:
  assumes \<open>json_loads ''{"primary": "frustration", "confidence": 0.87, "markers": ["doch Unsinn"]}''
             = Inr result\<close>
    and "has_key ''primary'' result" and "has_key ''confidence'' result"
  shows \<open>analyze_emotion json_loads
           (''Here is the result:'' @ [CHR 0x0A] @
            ''{"primary": "frustration", "confidence": 0.87, "markers": ["doch Unsinn"]}'' @
            [CHR 0x0A] @ ''Hope that helps!'') = Inr result\<close>
proof -
  have \<open>extract_first_json_object
          ((''Here is the result:'' @ [CHR 0x0A]) @
           ''{"primary": "frustration", "confidence": 0.87, "markers": ["doch Unsinn"]}'' @
           ([CHR 0x0A] @ ''Hope that helps!''))
        = Inr ''{"primary": "frustration", "confidence": 0.87, "markers": ["doch Unsinn"]}''\<close>
    by (rule extract_matched [OF _ json_object_matched_span [OF emotion_object]]) simp
  then show ?thesis using assms by (simp add: analyze_emotion_def)
qed

lemma analyze_emotion_missing_key:
  assumes "extract_first_json_object response_text = Inr json_str"
    and "json_loads json_str = Inr result"
    and "first_missing Emotion result \<noteq> None"
  shows "analyze_emotion json_loads response_text
           = Inl (RuntimeError
                   ''Emotion analysis failed: Invalid emotion JSON: missing required fields'')"
proof -
  have "validate Emotion result = Inl (missing_fields_error Emotion)"
    using assms(3) by (auto simp: first_missing_def split: if_splits)
  then show ?thesis using assms(1,2) by (simp add: analyze_emotion_def)
qed

section \<open>Properties of the accuracy gate\<close>

subsection \<open>What the loop collects and prints\<close>



lemma compare_sentences_keeps_printed:
  "set pr \<subseteq> set (snd (compare_sentences env ts sims pr))"
proof (induction ts arbitrary: sims pr)
  case Nil
  show ?case by simp
next
  case (Cons t ts)
  show ?case
  proof (cases "compare_one env t")
    case (Inl e)
    have "set (pr @ [FailedLine (take 30 t) (error_message e)])
        \<subseteq> set (snd (compare_sentences env ts sims (pr @ [FailedLine (take 30 t) (error_message e)])))"
      by (rule Cons.IH)
    with Inl show ?thesis by auto
  next
    case (Inr sim)
    let ?line = "ResultLine (if length t > TEXT_COLUMN_WIDTH
                        then take (TEXT_COLUMN_WIDTH - 3) t @ ''...'' else t) sim (sim \<ge> SIMILARITY_THRESHOLD)"
    have "set (pr @ [?line]) \<subseteq> set (snd (compare_sentences env ts (sims @ [sim]) (pr @ [?line])))"
      by (rule Cons.IH)
    with Inr show ?thesis by (auto simp: Let_def)
  qed
qed

lemma compare_sentences_reports_failure:
  "t \<in> set ts \<Longrightarrow> compare_one env t = Inl e \<Longrightarrow>
   FailedLine (take 30 t) (error_message e) \<in> set (snd (compare_sentences env ts sims pr))"
proof (induction ts arbitrary: sims pr)
  case Nil
  then show ?case by simp
next
  case (Cons x ts)
  show ?case
  proof (cases "x = t")
    case True
    have "set (pr @ [FailedLine (take 30 t) (error_message e)])
        \<subseteq> set (snd (compare_sentences env ts sims (pr @ [FailedLine (take 30 t) (error_message e)])))"
      by (rule compare_sentences_keeps_printed)
    with True Cons.prems(2) show ?thesis by auto
  next
    case False
    with Cons.prems have "t \<in> set ts" by simp
    from Cons.IH [OF this Cons.prems(2)] show ?thesis
      by (cases "compare_one env x") (auto simp: Let_def)
  qed
qed

lemma cosine_similarity_same: "cosine_similarity exact_ops [1, 0] [1, 0] = Inr 1"
  by (simp add: cosine_similarity_def exact_ops_def)


lemma cosine_similarity_zero:
  "cosine_similarity exact_ops [1, 0] [0, 0]
     = Inl (ValueError ''Cannot compute similarity for zero-magnitude vectors'')"
  by (simp add: cosine_similarity_def exact_ops_def)

lemma exact_mean: "np_mean exact_ops xs = sum_list xs / real (length xs)"
  by (simp add: exact_ops_def)

text \<open>Without rounding, the vectors of magnitude zero are the zero vectors.\<close>

lemma exact_norm_zero:
  "linalg_norm exact_ops a = 0 \<longleftrightarrow> (\<forall>x \<in> set a. x = 0)"
proof -
  have "sum_list (map (\<lambda>x. x * x) a) = 0 \<longleftrightarrow> (\<forall>x \<in> set a. x = 0)"
  proof (induction a)
    case Nil
    show ?case by simp
  next
    case (Cons y ys)
    have "0 \<le> y * y" by simp
    moreover have "0 \<le> sum_list (map (\<lambda>x. x * x) ys)" by (rule sum_list_nonneg) auto
    ultimately have "y * y + sum_list (map (\<lambda>x. x * x) ys) = 0
        \<longleftrightarrow> y * y = 0 \<and> sum_list (map (\<lambda>x. x * x) ys) = 0"
      by (rule add_nonneg_eq_0_iff)
    with Cons.IH show ?case by simp
  qed
  then show ?thesis by (simp add: exact_ops_def)
qed

subsection \<open>The decision and the exit code\<close>



subsection \<open>A vector of magnitude zero\<close>

text \<open>
  C8. When the norm computed for one of the two embeddings of a sentence is zero,
  \<open>cosine_similarity\<close> raises its \<open>ValueError\<close>: the comparison of that sentence yields
  no similarity. The loop does not pass over it in silence: in place of the result line it
  prints the failure notice with the sentence and the message of the error, and goes on
  with the next sentence.
\<close>

theorem zero_magnitude_is_reported:
  assumes fp32: "embed_fp32 env text = Inr a" and int8: "embed_int8 env text = Inr b"
    and shape: "length a = length b"
    and zero: "linalg_norm (ops env) a = 0 \<or> linalg_norm (ops env) b = 0"
  shows "cosine_similarity (ops env) a b
           = Inl (ValueError ''Cannot compute similarity for zero-magnitude vectors'') \<and>
         compare_sentences env (text # others) similarities printed
           = compare_sentences env others similarities
               (printed @ [FailedLine (take 30 text)
                             ''Cannot compute similarity for zero-magnitude vectors'']) \<and>
         (text \<in> set TEST_SENTENCES \<longrightarrow>
            FailedLine (take 30 text) ''Cannot compute similarity for zero-magnitude vectors''
              \<in> set (printed_report env))"
proof -
  have cos: "cosine_similarity (ops env) a b
      = Inl (ValueError ''Cannot compute similarity for zero-magnitude vectors'')"
    using shape zero by (auto simp: cosine_similarity_def Let_def)
  then have one: "compare_one env text
      = Inl (ValueError ''Cannot compute similarity for zero-magnitude vectors'')"
    using fp32 int8 by (simp add: compare_one_def)
  have step: "compare_sentences env (text # others) similarities printed
           = compare_sentences env others similarities
               (printed @ [FailedLine (take 30 text)
                             ''Cannot compute similarity for zero-magnitude vectors''])"
    using one by simp
  have "FailedLine (take 30 text) ''Cannot compute similarity for zero-magnitude vectors''
              \<in> set (printed_report env)" if "text \<in> set TEST_SENTENCES"
    using compare_sentences_reports_failure [OF that one, of "[]" "[]"]
    by (simp add: printed_report_def)
  with cos step show ?thesis by blast
qed

theorem zero_magnitude_is_reported_witness:
  "embed_fp32 env_zero ''Was ist Stress?'' = Inr [1, 0] \<and>
   embed_int8 env_zero ''Was ist Stress?'' = Inr [0, 0] \<and>
   linalg_norm (ops env_zero) [0, 0] = 0 \<and>
   cosine_similarity (ops env_zero) [1, 0] [0, 0]
     = Inl (ValueError ''Cannot compute similarity for zero-magnitude vectors'') \<and>
   FailedLine ''Was ist Stress?'' ''Cannot compute similarity for zero-magnitude vectors''
     \<in> set (printed_report env_zero)"
  using zero_magnitude_is_reported [of env_zero "''Was ist Stress?''" "[1, 0]" "[0, 0]"]
  by (simp add: env_zero_def env_equal_def exact_ops_def TEST_SENTENCES_def)

text \<open>
  The failure is local to the sentence. In the world \<open>env_zero\<close> the other seven
  sentences are compared, the mean is taken over their seven similarities, and the run
  exits with 0.
\<close>

lemma zero_magnitude_run_goes_on:
  "length (fst (compare_sentences env_zero TEST_SENTENCES [] [])) = 7 \<and>
   validate_models env_zero = Inr (1, 1, 1) \<and> validate_main env_zero = 0"
  by (simp add: validate_main_def validate_models_def env_zero_def env_equal_def
      TEST_SENTENCES_def compare_one_def cosine_similarity_same cosine_similarity_zero
      exact_mean py_min_def py_max_def SIMILARITY_THRESHOLD_def TEXT_COLUMN_WIDTH_def)

end
